theory Spec2Isabelle
  imports Complex_Main
begin

section \<open>The ETL pipeline of ETLProcess.py\<close>

text \<open>
  The program discovers the files of a directory, extracts each one into a pandas
  DataFrame with an extractor chosen by the file's extension, concatenates the frames,
  converts the columns \<open>height\<close> and \<open>weight\<close> to metric units and writes the
  result as CSV.

  The embedding follows the source function by function. What belongs to libraries
  (the parsers of pandas and ElementTree, the file system, the event loop) is either a
  parameter of the model (the record \<open>world\<close> below) or a small model of the documented behaviour
  of the library function that the source calls (\<open>pd_concat\<close>, \<open>select\<close>,
  \<open>to_numeric\<close>, \<open>gather\<close>).
\<close>

subsection \<open>Record tables\<close>

text \<open>
  A number in a frame is an integer or a float64: a real, or one of the two infinities.
  NaN is the missing value of pandas and is not a number here; the sign of zero is not
  modelled.
\<close>

datatype number = Finite real | PosInf | NegInf

text \<open>
  The arithmetic of float64 (IEEE 754 binary64, round to nearest, ties to even).
  \<open>float64 y\<close> is the float nearest to the real \<open>y\<close>: with \<open>e\<close> the binary exponent
  of \<open>y\<close>, and at least the smallest normal exponent, the floats near \<open>y\<close> are the
  multiples of \<open>2 powi (e - 52)\<close>, and \<open>y\<close> is rounded to the nearest of them; a result
  above the largest float is an infinity. \<open>times64\<close> is the product of two floats, where
  \<open>None\<close> is NaN (zero times infinity).
\<close>

definition round_half_even :: "real \<Rightarrow> int" where
  "round_half_even z =
     (if z - of_int \<lfloor>z\<rfloor> < 1 / 2 then \<lfloor>z\<rfloor>
      else if 1 / 2 < z - of_int \<lfloor>z\<rfloor> then \<lfloor>z\<rfloor> + 1
      else if even \<lfloor>z\<rfloor> then \<lfloor>z\<rfloor> else \<lfloor>z\<rfloor> + 1)"

definition max_float :: real where
  "max_float = (2 ^ 53 - 1) * 2 ^ 971"

definition float64 :: "real \<Rightarrow> number" where
  "float64 y =
     (if y = 0 then Finite 0
      else
        (let e = max \<lfloor>Transcendental.log 2 \<bar>y\<bar>\<rfloor> (- 1022);
             q = 2 powi (e - 52);
             v = of_int (round_half_even (y / q)) * q
         in if max_float < \<bar>v\<bar> then (if 0 < y then PosInf else NegInf) else Finite v))"

text \<open>The conversion of a number to float64: an integer above \<open>2 ^ 53\<close> is rounded.\<close>

fun to_float :: "number \<Rightarrow> number" where
  "to_float (Finite x) = float64 x"
| "to_float PosInf = PosInf"
| "to_float NegInf = NegInf"

fun times64 :: "number \<Rightarrow> number \<Rightarrow> number option" where
  "times64 (Finite x) (Finite y) = Some (float64 (x * y))"
| "times64 (Finite x) PosInf = (if x = 0 then None else Some (if 0 < x then PosInf else NegInf))"
| "times64 (Finite x) NegInf = (if x = 0 then None else Some (if 0 < x then NegInf else PosInf))"
| "times64 PosInf (Finite y) = (if y = 0 then None else Some (if 0 < y then PosInf else NegInf))"
| "times64 NegInf (Finite y) = (if y = 0 then None else Some (if 0 < y then NegInf else PosInf))"
| "times64 PosInf PosInf = Some PosInf"
| "times64 PosInf NegInf = Some NegInf"
| "times64 NegInf PosInf = Some NegInf"
| "times64 NegInf NegInf = Some PosInf"

text \<open>A cell of a DataFrame is a missing value (NaN or None), a string, or a number.\<close>

datatype cell = Null | Str string | Num number

type_synonym row = "string \<rightharpoonup> cell"

record table =
  columns :: "string list"
  rows :: "row list"

text \<open>\<open>pd.DataFrame()\<close>: no columns and no rows.\<close>

definition empty_frame :: table where
  "empty_frame = \<lparr>columns = [], rows = []\<rparr>"

text \<open>The value of a row in a column; a label the row does not have reads as missing.\<close>

definition cell_at :: "row \<Rightarrow> string \<Rightarrow> cell" where
  "cell_at r c = (case r c of None \<Rightarrow> Null | Some v \<Rightarrow> v)"

subsection \<open>Exceptions\<close>

text \<open>
  The classes of \<open>Exception\<close> that the handlers of \<open>process_file\<close> tell apart, each
  with its message. \<open>ValueError\<close> stands for the class and its subclasses (the parse
  errors of pandas, decoding errors); \<open>OtherException\<close> for every class that is neither a
  \<open>ValueError\<close> nor a \<open>FileNotFoundError\<close> and has no constructor of its own here.
\<close>

datatype exn =
    ValueError string
  | FileNotFoundError string
  | AttributeError string
  | KeyError string
  | OtherException string

fun message :: "exn \<Rightarrow> string" where
  "message (ValueError m) = m"
| "message (FileNotFoundError m) = m"
| "message (AttributeError m) = m"
| "message (KeyError m) = m"
| "message (OtherException m) = m"

subsection \<open>DataExtractorFactory.get_extractor\<close>

datatype extractor = CSVExtractor | JSONExtractor | XMLExtractor

text \<open>
  The value that \<open>get_extractor\<close> returns: an extractor instance found in the dictionary,
  or the default of \<open>dict.get\<close>, which is the function object
  \<open>lambda: ValueError("Unsupported file type")\<close>. The lambda takes no argument and
  closes over nothing, so it is one value.
\<close>

datatype resolved = Instance extractor | Unsupported_lambda

definition extractors :: "string \<rightharpoonup> extractor" where
  "extractors = [''csv'' \<mapsto> CSVExtractor, ''json'' \<mapsto> JSONExtractor, ''xml'' \<mapsto> XMLExtractor]"

definition get_extractor :: "string \<Rightarrow> resolved" where
  "get_extractor ft = (case extractors ft of Some x \<Rightarrow> Instance x | None \<Rightarrow> Unsupported_lambda)"

text \<open>The exception that calling the lambda would build; no code of the program calls it.\<close>

definition call_lambda :: exn where
  "call_lambda = ValueError ''Unsupported file type''"

subsection \<open>The log and the decorator\<close>

text \<open>
  The state that the program changes: the log file, as the list of the messages appended
  to it (the time stamp that \<open>Logger.log\<close> puts before each message is left out), and
  the output file, as the table that \<open>to_csv\<close> wrote there, if any. Opening and
  appending to the log file is assumed to succeed.
\<close>

record state =
  log_file :: "string list"
  output_file :: "table option"

type_synonym 'a comp = "state \<Rightarrow> (exn + 'a) \<times> state"

definition log :: "string \<Rightarrow> state \<Rightarrow> state" where
  "log msg s = s\<lparr>log_file := log_file s @ [msg]\<rparr>"

definition context_info :: "string \<Rightarrow> string" where
  "context_info context = (if context = [] then ''No context provided'' else ''Context: '' @ context)"

text \<open>
  \<open>log_function(context)(func)\<close>: logs the start, runs the function, logs the completion
  and returns the result. When the function raises, the completion is not logged and the
  exception goes on to the caller.
\<close>

definition log_function :: "string \<Rightarrow> string \<Rightarrow> 'a comp \<Rightarrow> 'a comp" where
  "log_function context name func s =
     (case func (log (name @ '' started. '' @ context_info context) s) of
        (Inl e, s') \<Rightarrow> (Inl e, s')
      | (Inr result, s') \<Rightarrow> (Inr result, log (name @ '' completed. '' @ context_info context) s'))"

subsection \<open>The world outside the program\<close>

text \<open>
  \<open>discovered\<close> is the list that \<open>glob.glob\<close> returns. \<open>parse x path\<close> is the outcome
  of reading and parsing the file at \<open>path\<close> with the library parser of extractor
  \<open>x\<close> (\<open>read_csv\<close>, \<open>read_json\<close>, \<open>ET.parse\<close> and the DataFrame constructor): a
  table or the exception raised. \<open>number_of\<close> is the parser of \<open>pd.to_numeric\<close> for
  strings. \<open>completion\<close> is the order in which the event loop completes the extraction
  tasks. \<open>load_fault\<close> is the exception, if any, with which creating the output directory
  or writing the output file fails.
\<close>

record world =
  discovered :: "string list"
  parse :: "extractor \<Rightarrow> string \<Rightarrow> exn + table"
  number_of :: "string \<Rightarrow> number option"
  completion :: "nat list"
  load_fault :: "exn option"

subsection \<open>The extractors\<close>

text \<open>\<open>extract_file w x path\<close> is the method \<open>extract\<close> of the extractor \<open>x\<close>, with its
  decorator.\<close>

fun extract_context :: "extractor \<Rightarrow> string" where
  "extract_context CSVExtractor = ''Extracting CSV data''"
| "extract_context JSONExtractor = ''Extracting JSON data''"
| "extract_context XMLExtractor = ''Extracting XML data''"

definition extract_file :: "world \<Rightarrow> extractor \<Rightarrow> string \<Rightarrow> table comp" where
  "extract_file w x path = log_function (extract_context x) ''extract'' (\<lambda>s. (parse w x path, s))"

subsection \<open>ETLProcess.process_file\<close>

text \<open>\<open>file.split('.')[-1]\<close>: what follows the last dot of the path; the whole path when
  it has no dot.\<close>

definition last_part :: "string \<Rightarrow> string" where
  "last_part file = rev (takeWhile (\<lambda>c. c \<noteq> CHR ''.'') (rev file))"

text \<open>
  The body of the \<open>try\<close> block. The default of the factory is a function object, which
  has no attribute \<open>extract\<close>: looking it up raises \<open>AttributeError\<close>.
\<close>

definition no_attribute :: exn where
  "no_attribute = AttributeError
     ([CHR 0x27] @ ''function'' @ [CHR 0x27] @ '' object has no attribute '' @
      [CHR 0x27] @ ''extract'' @ [CHR 0x27])"

definition attempt :: "world \<Rightarrow> string \<Rightarrow> table comp" where
  "attempt w file =
     (case get_extractor (last_part file) of
        Unsupported_lambda \<Rightarrow> (\<lambda>s. (Inl no_attribute, s))
      | Instance x \<Rightarrow> extract_file w x file)"

text \<open>The three \<open>except\<close> clauses, in their order.\<close>

fun handler :: "string \<Rightarrow> exn \<Rightarrow> string" where
  "handler file (ValueError m) = ''ValueError processing file '' @ file @ '': '' @ m"
| "handler file (FileNotFoundError m) = ''FileNotFoundError: '' @ m"
| "handler file e = ''Error processing file '' @ file @ '': '' @ message e"

definition process_file :: "world \<Rightarrow> string \<Rightarrow> table comp" where
  "process_file w file =
     log_function ''Processing file'' ''process_file''
       (\<lambda>s. case attempt w file s of
               (Inr df, s') \<Rightarrow> (Inr df, s')
             | (Inl e, s') \<Rightarrow> (Inr empty_frame, log (handler file e) s'))"

subsection \<open>asyncio.gather\<close>

text \<open>
  \<open>gather\<close> keeps one slot per awaitable, in the order of its arguments. A task that
  completes stores its result in its own slot; the first exception raised by a task is
  raised to the caller of \<open>gather\<close>. The order of completion is a parameter: the tasks
  complete in the order of their first occurrence in \<open>order\<close>, and those that do not occur
  there complete afterwards, so every list of numbers is a completion order and every task
  completes once. A task runs here from its start to its end when it completes: the
  interleaving of the log entries of different tasks is not modelled.
\<close>

fun complete :: "nat list \<Rightarrow> 'a comp list \<Rightarrow> 'a option list \<Rightarrow> state \<Rightarrow> (exn + 'a option list) \<times> state" where
  "complete [] tasks slots s = (Inr slots, s)"
| "complete (i # order) tasks slots s =
     (if i < length tasks \<and> slots ! i = None then
        (case (tasks ! i) s of
           (Inl e, s') \<Rightarrow> (Inl e, s')
         | (Inr v, s') \<Rightarrow> complete order tasks (slots[i := Some v]) s')
      else complete order tasks slots s)"

definition gather :: "nat list \<Rightarrow> 'a comp list \<Rightarrow> 'a list comp" where
  "gather order tasks s =
     (case complete (order @ [0..<length tasks]) tasks (replicate (length tasks) None) s of
        (Inl e, s') \<Rightarrow> (Inl e, s')
      | (Inr slots, s') \<Rightarrow> (Inr (List.map_filter (\<lambda>v. v) slots), s'))"

subsection \<open>The DataFrame operations that the pipeline uses\<close>

text \<open>
  \<open>pd.concat(frames, ignore_index=True)\<close>: raises \<open>ValueError\<close> on an empty list;
  otherwise the columns are the union of the frames' columns in the order of their first
  appearance, the rows are the frames' rows one frame after the other, and a row has a
  missing value in every column that its frame does not have.
\<close>

definition union_columns :: "table list \<Rightarrow> string list" where
  "union_columns frames = rev (remdups (rev (concat (map columns frames))))"

definition reindex :: "string list \<Rightarrow> table \<Rightarrow> row list" where
  "reindex labels t =
     map (\<lambda>r c. if c \<in> set labels
                then Some (if c \<in> set (columns t) then cell_at r c else Null)
                else None) (rows t)"

definition pd_concat :: "table list \<Rightarrow> exn + table" where
  "pd_concat frames =
     (if frames = [] then Inl (ValueError ''No objects to concatenate'')
      else Inr \<lparr>columns = union_columns frames,
                rows = concat (map (reindex (union_columns frames)) frames)\<rparr>)"

text \<open>
  \<open>df[labels]\<close> with a list of labels: raises \<open>KeyError\<close> when a label is not a column;
  otherwise a new frame with these columns, in the order of the list.
\<close>

fun py_list :: "string list \<Rightarrow> string" where
  "py_list [] = []"
| "py_list [l] = [CHR 0x27] @ l @ [CHR 0x27]"
| "py_list (l # ls) = [CHR 0x27] @ l @ [CHR 0x27] @ '', '' @ py_list ls"

definition not_found :: "string list \<Rightarrow> string list \<Rightarrow> exn" where
  "not_found labels missing =
     KeyError (if length missing = length labels
               then ''None of [Index(['' @ py_list labels @ ''], dtype='' @ [CHR 0x27] @ ''object'' @
                    [CHR 0x27] @ '')] are in the [columns]''
               else ''['' @ py_list missing @ ''] not in index'')"

definition select :: "string list \<Rightarrow> table \<Rightarrow> exn + table" where
  "select labels t =
     (case filter (\<lambda>c. c \<notin> set (columns t)) labels of
        [] \<Rightarrow> Inr \<lparr>columns = labels,
                   rows = map (\<lambda>r c. if c \<in> set labels then Some (cell_at r c) else None) (rows t)\<rparr>
      | m # ms \<Rightarrow> Inl (not_found labels (m # ms)))"

text \<open>
  \<open>pd.to_numeric(errors='coerce')\<close> on one cell gives a number or NaN (\<open>None\<close>): a
  number stays, a string is parsed, and what cannot be parsed is NaN. \<open>multiply k\<close> is
  the multiplication of a column by the float literal \<open>k\<close> of the source, which denotes
  the float64 nearest to \<open>k\<close>: the number is converted to float64 and the two floats are
  multiplied; NaN stays NaN. \<open>float_cell\<close> stores the result in a frame.
\<close>

fun to_numeric :: "(string \<Rightarrow> number option) \<Rightarrow> cell \<Rightarrow> number option" where
  "to_numeric p Null = None"
| "to_numeric p (Num x) = Some x"
| "to_numeric p (Str s) = p s"

definition multiply :: "real \<Rightarrow> number option \<Rightarrow> number option" where
  "multiply k v = (case v of None \<Rightarrow> None | Some x \<Rightarrow> times64 (to_float x) (float64 k))"

fun float_cell :: "number option \<Rightarrow> cell" where
  "float_cell None = Null"
| "float_cell (Some x) = Num x"

subsection \<open>ETLProcess.transform_data\<close>

text \<open>
  The function changes the frame it is given: the assignment to
  \<open>df[['height', 'weight']]\<close> overwrites the two columns of the caller's frame. So the
  model returns the caller's frame as it is after the call, and the outcome of the call.
  The right-hand side is evaluated first and raises \<open>KeyError\<close> before anything is
  assigned; the selection of the three columns comes after the assignment.
\<close>

definition transform_frame :: "(string \<Rightarrow> number option) \<Rightarrow> table \<Rightarrow> table \<times> (exn + table)" where
  "transform_frame p df =
     (case select [''height'', ''weight''] df of
        Inl e \<Rightarrow> (df, Inl e)
      | Inr hw \<Rightarrow>
          (let converted = map (\<lambda>r. (multiply 0.0254 (to_numeric p (cell_at r ''height'')),
                                     multiply 0.453592 (to_numeric p (cell_at r ''weight'')))) (rows hw);
               df' = df\<lparr>rows := map (\<lambda>(r, h, w). r(''height'' \<mapsto> float_cell h, ''weight'' \<mapsto> float_cell w))
                                    (zip (rows df) converted)\<rparr>
           in (df', select [''name'', ''height'', ''weight''] df')))"

definition transform_data :: "(string \<Rightarrow> number option) \<Rightarrow> table \<Rightarrow> table comp" where
  "transform_data p df =
     log_function ''Transforming data'' ''transform_data'' (\<lambda>s. (snd (transform_frame p df), s))"

subsection \<open>ETLProcess.load_data and ETLProcess.run\<close>

definition load_data :: "world \<Rightarrow> table \<Rightarrow> unit comp" where
  "load_data w df =
     log_function ''Loading data'' ''load_data''
       (\<lambda>s. case load_fault w of
               Some e \<Rightarrow> (Inl e, s)
             | None \<Rightarrow> (Inr (), s\<lparr>output_file := Some df\<rparr>))"

definition run :: "world \<Rightarrow> unit comp" where
  "run w =
     log_function ''ETL Process'' ''run''
       (\<lambda>s. case gather (completion w) (map (process_file w) (discovered w)) s of
               (Inl e, s1) \<Rightarrow> (Inl e, s1)
             | (Inr results, s1) \<Rightarrow>
                 (case pd_concat results of
                    Inl e \<Rightarrow> (Inl e, s1)
                  | Inr df \<Rightarrow>
                      (case transform_data (number_of w) df s1 of
                         (Inl e, s2) \<Rightarrow> (Inl e, s2)
                       | (Inr out, s2) \<Rightarrow> load_data w out s2)))"

definition start :: state where
  "start = \<lparr>log_file = [], output_file = None\<rparr>"

subsection \<open>Example inputs\<close>

text \<open>
  Concrete frames and a concrete world, on which the theorems below are instantiated.
  \<open>example_number\<close> parses the number strings that occur in them.
  \<open>example_parse\<close> describes a directory with a good CSV file, a CSV file that has a
  header and no record (\<open>header_only\<close>), an XML file that is not
  well formed, an XML file whose root has no children, and a JSON file that is not
  line-delimited JSON; every other path does not exist. \<open>directory files\<close> is the world
  in which \<open>glob\<close> finds \<open>files\<close> and the last task dispatched completes first.
\<close>

definition people :: table where
  "people = \<lparr>columns = [''name'', ''height'', ''weight'', ''city''],
     rows = [[''name'' \<mapsto> Str ''Bob'', ''height'' \<mapsto> Num (Finite 70), ''weight'' \<mapsto> Str ''180'', ''city'' \<mapsto> Str ''Oslo''],
             [''name'' \<mapsto> Null, ''height'' \<mapsto> Str ''tall'', ''weight'' \<mapsto> Null, ''city'' \<mapsto> Null]]\<rparr>"

definition bob :: table where
  "bob = \<lparr>columns = [''name'', ''height'', ''weight''],
     rows = [[''name'' \<mapsto> Str ''Bob'', ''height'' \<mapsto> Num (Finite 70), ''weight'' \<mapsto> Num (Finite 180)]]\<rparr>"


definition header_only :: table where
  "header_only = \<lparr>columns = [''name'', ''height'', ''weight''], rows = []\<rparr>"

definition example_number :: "string \<Rightarrow> number option" where
  "example_number x =
     (if x = ''70'' then Some (Finite 70) else if x = ''180'' then Some (Finite 180)
      else if x = ''inf'' then Some PosInf else None)"

definition example_parse :: "extractor \<Rightarrow> string \<Rightarrow> exn + table" where
  "example_parse x path =
     (if x = CSVExtractor \<and> path = ''./unzipped_folder/a.csv'' then Inr bob
      else if x = CSVExtractor \<and> path = ''./unzipped_folder/h.csv'' then Inr header_only
      else if x = XMLExtractor \<and> path = ''./unzipped_folder/b.xml''
        then Inl (OtherException ''mismatched tag: line 3, column 2'')
      else if x = XMLExtractor \<and> path = ''./unzipped_folder/d.xml'' then Inr empty_frame
      else if x = JSONExtractor \<and> path = ''./unzipped_folder/e.json''
        then Inl (ValueError ''Expected object or value'')
      else Inl (FileNotFoundError path))"

definition directory :: "string list \<Rightarrow> world" where
  "directory files = \<lparr>discovered = files, parse = example_parse, number_of = example_number,
     completion = rev [0..<length files], load_fault = None\<rparr>"

section \<open>Properties\<close>

subsection \<open>The resolver\<close>

text \<open>
  C4 (as amended). For every extension string the resolver returns the instance of the
  matching extractor exactly when the string is \<open>csv\<close>, \<open>json\<close> or \<open>xml\<close>, compared
  as it is; for every other string it returns the default of the dictionary lookup, one
  and the same function object, which holds no extension. Its result is a value in every
  case: the function raises nothing.
\<close>

theorem get_extractor_resolves:
  "get_extractor ft =
     (if ft = ''csv'' then Instance CSVExtractor
      else if ft = ''json'' then Instance JSONExtractor
      else if ft = ''xml'' then Instance XMLExtractor
      else Unsupported_lambda)"
  by (simp add: get_extractor_def extractors_def)

text \<open>
  C4 as stated fails: what the resolver returns for an unsupported extension does not carry
  the extension, since two different unsupported extensions give the same value.
\<close>

theorem get_extractor_carries_no_extension:
  "get_extractor ''txt'' = get_extractor ''pdf'' \<and> ''txt'' \<noteq> ''pdf''"
  by (simp add: get_extractor_def extractors_def)

lemma get_extractor_cases: "get_extractor ft =
     (if ft = ''csv'' then Instance CSVExtractor
      else if ft = ''json'' then Instance JSONExtractor
      else if ft = ''xml'' then Instance XMLExtractor
      else Unsupported_lambda)"
  by (simp add: get_extractor_def extractors_def)

subsection \<open>The result of \<open>process_file\<close>\<close>

lemma fst_log_function:
  "fst (log_function c n f s) = fst (f (log (n @ '' started. '' @ context_info c) s))"
  by (simp add: log_function_def split: prod.splits sum.splits)

lemma fst_extract_file: "fst (extract_file w x path s) = parse w x path"
  by (simp add: extract_file_def fst_log_function)

lemma fst_attempt:
  "fst (attempt w file s) =
     (case get_extractor (last_part file) of
        Unsupported_lambda \<Rightarrow> Inl no_attribute
      | Instance x \<Rightarrow> parse w x file)"
  by (simp add: attempt_def fst_extract_file split: resolved.splits)

lemma fst_process_file:
  "fst (process_file w file s) =
     Inr (case fst (attempt w file t) of Inl e \<Rightarrow> empty_frame | Inr df \<Rightarrow> df)"
proof -
  let ?s1 = "log (''process_file'' @ '' started. '' @ context_info ''Processing file'') s"
  have eq: "fst (attempt w file ?s1) = fst (attempt w file t)"
    by (simp only: fst_attempt)
  obtain r s' where a: "attempt w file ?s1 = (r, s')"
    by (cases "attempt w file ?s1")
  then have r: "fst (attempt w file t) = r"
    using eq by simp
  show ?thesis
    unfolding process_file_def fst_log_function
    using a r by (cases r) simp_all
qed

subsection \<open>The results of \<open>gather\<close>\<close>

lemma complete_fills:
  assumes val: "\<And>i s. i < length tasks \<Longrightarrow> fst ((tasks ! i) s) = Inr (val i)"
  shows "length slots = length tasks \<Longrightarrow>
     \<exists>slots' s'. complete order tasks slots s = (Inr slots', s') \<and> length slots' = length slots \<and>
       (\<forall>j<length tasks. slots' ! j =
          (if slots ! j = None \<and> j \<in> set order then Some (val j) else slots ! j))"
proof (induction order arbitrary: slots s)
  case Nil
  then show ?case by simp
next
  case (Cons i order)
  show ?case
  proof (cases "i < length tasks \<and> slots ! i = None")
    case True
    obtain r s1 where t: "(tasks ! i) s = (r, s1)"
      by (cases "(tasks ! i) s")
    with val [of i s] True have r: "r = Inr (val i)"
      by simp
    have "length (slots[i := Some (val i)]) = length tasks"
      using Cons.prems by simp
    from Cons.IH [OF this, of s1]
    obtain slots' s' where c: "complete order tasks (slots[i := Some (val i)]) s1 = (Inr slots', s')"
      and l: "length slots' = length (slots[i := Some (val i)])"
      and f: "\<forall>j<length tasks. slots' ! j =
          (if slots[i := Some (val i)] ! j = None \<and> j \<in> set order then Some (val j)
           else slots[i := Some (val i)] ! j)"
      by blast
    have "complete (i # order) tasks slots s = (Inr slots', s')"
      using True t r c by simp
    moreover have "length slots' = length slots"
      using l by simp
    moreover have "\<forall>j<length tasks. slots' ! j =
          (if slots ! j = None \<and> j \<in> set (i # order) then Some (val j) else slots ! j)"
    proof (intro allI impI)
      fix j assume j: "j < length tasks"
      show "slots' ! j = (if slots ! j = None \<and> j \<in> set (i # order) then Some (val j) else slots ! j)"
      proof (cases "j = i")
        case True
        with f j \<open>i < length tasks \<and> slots ! i = None\<close> Cons.prems show ?thesis by simp
      next
        case False
        with f j show ?thesis by simp
      qed
    qed
    ultimately show ?thesis by blast
  next
    case False
    from Cons.IH [OF Cons.prems, of s]
    obtain slots' s' where c: "complete order tasks slots s = (Inr slots', s')"
      and l: "length slots' = length slots"
      and f: "\<forall>j<length tasks. slots' ! j =
          (if slots ! j = None \<and> j \<in> set order then Some (val j) else slots ! j)"
      by blast
    have "complete (i # order) tasks slots s = (Inr slots', s')"
      using False c by auto
    moreover have "\<forall>j<length tasks. slots' ! j =
          (if slots ! j = None \<and> j \<in> set (i # order) then Some (val j) else slots ! j)"
    proof (intro allI impI)
      fix j assume j: "j < length tasks"
      show "slots' ! j = (if slots ! j = None \<and> j \<in> set (i # order) then Some (val j) else slots ! j)"
      proof (cases "j = i")
        case True
        with f j False show ?thesis by auto
      next
        case False
        with f j show ?thesis by simp
      qed
    qed
    ultimately show ?thesis using l by blast
  qed
qed

lemma map_filter_Some: "List.map_filter (\<lambda>v. v) (map (\<lambda>j. Some (f j)) xs) = map f xs"
  by (induction xs) (simp_all add: List.map_filter_simps)

lemma gather_results:
  assumes val: "\<And>i s. i < length tasks \<Longrightarrow> fst ((tasks ! i) s) = Inr (val i)"
  shows "fst (gather order tasks s) = Inr (map val [0..<length tasks])"
proof -
  let ?n = "length tasks"
  have "length (replicate ?n (None :: 'a option)) = length tasks"
    by simp
  from complete_fills [of tasks val, OF val this, of "order @ [0..<?n]" s]
  obtain slots' s' where c: "complete (order @ [0..<?n]) tasks (replicate ?n None) s = (Inr slots', s')"
    and l: "length slots' = ?n"
    and f: "\<forall>j<?n. slots' ! j =
          (if replicate ?n None ! j = None \<and> j \<in> set (order @ [0..<?n]) then Some (val j)
           else replicate ?n None ! j)"
    by auto
  have "slots' = map (\<lambda>j. Some (val j)) [0..<?n]"
    using l f by (intro nth_equalityI) simp_all
  then show ?thesis
    using c by (simp add: gather_def map_filter_Some)
qed

lemma gather_process_file:
  "fst (gather order (map (process_file w) files) s) =
     Inr (map (\<lambda>file. case fst (attempt w file t) of Inl e \<Rightarrow> empty_frame | Inr df \<Rightarrow> df) files)"
proof -
  let ?val = "\<lambda>i. case fst (attempt w (files ! i) t) of Inl e \<Rightarrow> empty_frame | Inr df \<Rightarrow> df"
  have "fst (gather order (map (process_file w) files) s) =
          Inr (map ?val [0..<length (map (process_file w) files)])"
    by (rule gather_results) (simp add: fst_process_file [where t = t])
  also have "map ?val [0..<length (map (process_file w) files)] =
      map (\<lambda>file. case fst (attempt w file t) of Inl e \<Rightarrow> empty_frame | Inr df \<Rightarrow> df) files"
    by (intro nth_equalityI) simp_all
  finally show ?thesis .
qed

subsection \<open>The arithmetic of float64\<close>

lemma round_half_even_error: "\<bar>of_int (round_half_even z) - z\<bar> \<le> 1 / 2"
proof -
  have "of_int \<lfloor>z\<rfloor> \<le> z" and "z < of_int \<lfloor>z\<rfloor> + 1"
    by linarith+
  then show ?thesis
    unfolding round_half_even_def by (auto simp: abs_le_iff)
qed

lemma round_half_even_bound:
  assumes "\<bar>z\<bar> \<le> of_int N"
  shows "\<bar>round_half_even z\<bar> \<le> N"
proof -
  have "- of_int N \<le> z" and "z \<le> of_int N"
    using assms by linarith+
  then have lo: "- N \<le> \<lfloor>z\<rfloor>" and hi: "\<lfloor>z\<rfloor> \<le> N"
    by (simp_all add: le_floor_iff floor_le_iff)
  have "\<lfloor>z\<rfloor> + 1 \<le> N" if "1 / 2 \<le> z - of_int \<lfloor>z\<rfloor>"
  proof -
    from that have "of_int \<lfloor>z\<rfloor> < z" by linarith
    with \<open>z \<le> of_int N\<close> have "of_int \<lfloor>z\<rfloor> < (of_int N :: real)" by linarith
    then show ?thesis by linarith
  qed
  then show ?thesis
    using lo hi unfolding round_half_even_def by (auto simp: abs_le_iff not_less)
qed

lemma round_half_even_eq:
  assumes "\<bar>z - of_int m\<bar> < 1 / 2"
  shows "round_half_even z = m"
proof -
  from assms have lo: "of_int m - 1 / 2 < z" and hi: "z < of_int m + 1 / 2"
    by linarith+
  have "m - 1 \<le> \<lfloor>z\<rfloor>"
    using lo by (simp add: le_floor_iff)
  moreover have "\<lfloor>z\<rfloor> \<le> m"
    using hi by (simp add: floor_le_iff)
  ultimately have "\<lfloor>z\<rfloor> = m \<or> \<lfloor>z\<rfloor> = m - 1"
    by linarith
  then show ?thesis
  proof
    assume "\<lfloor>z\<rfloor> = m"
    with lo hi show ?thesis
      unfolding round_half_even_def by auto
  next
    assume "\<lfloor>z\<rfloor> = m - 1"
    with lo hi show ?thesis
      unfolding round_half_even_def by auto
  qed
qed

lemma powr_powi: "2 powr (real_of_int e) = (2::real) powi e"
  by (rule powr_real_of_int') simp_all

lemma powr_powi_Suc: "2 powr (real_of_int e + 1) = (2::real) powi (e + 1)"
  using powr_powi [of "e + 1"] by simp

lemma exponent_bounds:
  assumes "y \<noteq> 0"
  shows "2 powi \<lfloor>Transcendental.log 2 \<bar>y\<bar>\<rfloor> \<le> \<bar>y\<bar>" and "\<bar>y\<bar> < 2 powi (\<lfloor>Transcendental.log 2 \<bar>y\<bar>\<rfloor> + 1)"
proof -
  from assms have pos: "0 < \<bar>y\<bar>" by simp
  have "2 powr (real_of_int \<lfloor>Transcendental.log 2 \<bar>y\<bar>\<rfloor>) \<le> \<bar>y\<bar> \<and> \<bar>y\<bar> < 2 powr (real_of_int \<lfloor>Transcendental.log 2 \<bar>y\<bar>\<rfloor> + 1)"
    using floor_log_eq_powr_iff [OF pos, of 2 "\<lfloor>Transcendental.log 2 \<bar>y\<bar>\<rfloor>"] by simp
  then show "2 powi \<lfloor>Transcendental.log 2 \<bar>y\<bar>\<rfloor> \<le> \<bar>y\<bar>" and "\<bar>y\<bar> < 2 powi (\<lfloor>Transcendental.log 2 \<bar>y\<bar>\<rfloor> + 1)"
    unfolding powr_powi powr_powi_Suc by simp_all
qed

lemma exponent_eq:
  assumes "2 powi e \<le> \<bar>y\<bar>" and "\<bar>y\<bar> < 2 powi (e + 1)"
  shows "\<lfloor>Transcendental.log 2 \<bar>y\<bar>\<rfloor> = e"
proof -
  have pos: "0 < \<bar>y\<bar>"
    using assms(1) zero_less_power_int [of "2::real" e] by linarith
  have "2 powr (real_of_int e) \<le> \<bar>y\<bar> \<and> \<bar>y\<bar> < 2 powr (real_of_int e + 1)"
    unfolding powr_powi powr_powi_Suc using assms by simp
  then show ?thesis
    using floor_log_eq_powr_iff [OF pos, of 2 e] by simp
qed

lemma powi_split: "(2::real) powi (a + b) = 2 powi a * 2 powi b"
  by (rule power_int_add) simp

lemma max_float_less: "max_float < 2 powi 1024"
proof -
  have "max_float < 2 ^ 53 * (2::real) ^ 971"
    unfolding max_float_def by (intro mult_strict_right_mono) simp_all
  also have "\<dots> = 2 ^ 1024"
    by (simp flip: power_add)
  finally show ?thesis by simp
qed

lemma max_float_ge: "2 powi 1023 \<le> max_float"
proof -
  have "(2::real) ^ 1023 = 2 ^ 52 * 2 ^ 971"
    by (simp flip: power_add)
  also have "\<dots> \<le> (2 ^ 53 - 1) * 2 ^ 971"
    by (intro mult_right_mono) simp_all
  finally show ?thesis
    by (simp add: max_float_def)
qed

lemma round_half_even_bound_real:
  assumes "\<bar>z\<bar> \<le> of_int N"
  shows "\<bar>real_of_int (round_half_even z)\<bar> \<le> of_int N"
proof -
  have "real_of_int \<bar>round_half_even z\<bar> \<le> real_of_int N"
    using round_half_even_bound [OF assms] by (simp only: of_int_le_iff)
  then show ?thesis
    by simp
qed

lemma float64_finite:
  assumes "\<bar>y\<bar> \<le> max_float"
  shows "\<exists>v. float64 y = Finite v \<and> \<bar>v\<bar> \<le> max_float \<and>
     \<bar>v - y\<bar> \<le> 2 powi (- 53) * \<bar>y\<bar> + 2 powi (- 1075)"
proof (cases "y = 0")
  case True
  then show ?thesis
    by (simp add: float64_def max_float_def)
next
  case False
  define e0 where "e0 = \<lfloor>Transcendental.log 2 \<bar>y\<bar>\<rfloor>"
  define e where "e = max e0 (- 1022)"
  define q :: real where "q = 2 powi (e - 52)"
  define m where "m = round_half_even (y / q)"
  define v where "v = of_int m * q"
  have lo: "2 powi e0 \<le> \<bar>y\<bar>" and hi: "\<bar>y\<bar> < 2 powi (e0 + 1)"
    unfolding e0_def using exponent_bounds [OF False] by simp_all
  have q: "0 < q"
    by (simp add: q_def)
  have q53: "q * 2 ^ 53 = 2 powi (e + 1)"
  proof -
    have "e + 1 = (e - 52) + 53" by simp
    then have "(2::real) powi (e + 1) = 2 powi (e - 52) * 2 powi 53"
      by (simp only: powi_split)
    then show ?thesis by (simp add: q_def)
  qed
  have "v - y = (of_int m - y / q) * q"
    using q by (simp add: v_def field_simps)
  then have "\<bar>v - y\<bar> = \<bar>of_int m - y / q\<bar> * q"
    using q by (simp add: abs_mult)
  also have "\<dots> \<le> 1 / 2 * q"
    unfolding m_def using q by (intro mult_right_mono round_half_even_error) simp
  finally have err: "\<bar>v - y\<bar> \<le> q / 2"
    by simp
  have half: "q / 2 \<le> 2 powi (- 53) * \<bar>y\<bar> + 2 powi (- 1075)"
  proof (cases "- 1022 \<le> e0")
    case True
    then have "e = e0" by (simp add: e_def)
    have "e0 - 52 = e0 + (- 52)" by simp
    then have "q = 2 powi e0 * 2 powi (- 52)"
      unfolding q_def \<open>e = e0\<close> by (simp only: powi_split)
    then have "q / 2 = 2 powi (- 53) * 2 powi e0"
      by simp
    also have "\<dots> \<le> 2 powi (- 53) * \<bar>y\<bar>"
      using lo by (intro mult_left_mono) simp_all
    finally have "q / 2 \<le> 2 powi (- 53) * \<bar>y\<bar>" .
    moreover have "(0::real) \<le> 2 powi (- 1075)"
      by (rule less_imp_le) (rule zero_less_power_int, simp)
    ultimately show ?thesis
      by linarith
  next
    case False
    then have "e = - 1022" by (simp add: e_def)
    then have "q = 2 powi (- 1074)"
      by (simp add: q_def)
    moreover have "(- 1074 :: int) = - 1075 + 1" by simp
    ultimately have "q = 2 powi (- 1075) * 2"
      by (simp only: powi_split) simp
    then have "q / 2 = 2 powi (- 1075)"
      by simp
    moreover have "0 \<le> 2 powi (- 53) * \<bar>y\<bar>"
      by simp
    ultimately show ?thesis
      by linarith
  qed
  have e0_le: "e0 \<le> 1023"
  proof (rule ccontr)
    assume "\<not> e0 \<le> 1023"
    then have "1024 \<le> e0" by simp
    then have "(2::real) powi 1024 \<le> 2 powi e0"
      by (intro power_int_increasing) simp_all
    with lo assms max_float_less show False by linarith
  qed
  then have e_le: "e \<le> 1023"
    by (simp add: e_def)
  have e0_e: "e0 \<le> e"
    by (simp add: e_def)
  have bound: "\<bar>v\<bar> \<le> max_float"
  proof (cases "e = 1023")
    case True
    then have qv: "q = 2 ^ 971"
      by (simp add: q_def)
    have "\<bar>y / q\<bar> = \<bar>y\<bar> / q"
      using q by simp
    also have "\<dots> \<le> max_float / q"
      using assms q by (intro divide_right_mono) simp_all
    also have "\<dots> = of_int (2 ^ 53 - 1)"
      unfolding qv max_float_def by simp
    finally have "\<bar>of_int m :: real\<bar> \<le> of_int (2 ^ 53 - 1)"
      unfolding m_def by (rule round_half_even_bound_real)
    then have "\<bar>of_int m :: real\<bar> \<le> 2 ^ 53 - 1"
      by simp
    then have "\<bar>v\<bar> \<le> (2 ^ 53 - 1) * q"
      unfolding v_def abs_mult using q by (intro mult_mono) simp_all
    then show ?thesis
      by (simp add: qv max_float_def)
  next
    case False
    with e_le have e22: "e + 1 \<le> 1023" by simp
    have "\<bar>y\<bar> < 2 powi (e + 1)"
    proof -
      have "(2::real) powi (e0 + 1) \<le> 2 powi (e + 1)"
        using e0_e by (intro power_int_increasing) simp_all
      with hi show ?thesis by linarith
    qed
    with q53 have "\<bar>y\<bar> \<le> q * 2 ^ 53"
      by linarith
    then have "\<bar>y\<bar> / q \<le> 2 ^ 53"
      using q by (simp add: field_simps)
    then have "\<bar>y / q\<bar> \<le> of_int (2 ^ 53)"
      using q by simp
    then have "\<bar>of_int m :: real\<bar> \<le> of_int (2 ^ 53)"
      unfolding m_def by (rule round_half_even_bound_real)
    then have "\<bar>of_int m :: real\<bar> \<le> 2 ^ 53"
      by simp
    then have "\<bar>v\<bar> \<le> 2 ^ 53 * q"
      unfolding v_def abs_mult using q by (intro mult_mono) simp_all
    also have "\<dots> = 2 powi (e + 1)"
      using q53 by (simp add: mult.commute)
    also have "\<dots> \<le> 2 powi 1023"
      using e22 by (intro power_int_increasing) simp_all
    also note max_float_ge
    finally show ?thesis .
  qed
  have "float64 y = Finite v"
    using \<open>y \<noteq> 0\<close> bound
    by (simp add: float64_def Let_def e0_def [symmetric] e_def [symmetric] q_def [symmetric]
        m_def [symmetric] v_def [symmetric])
  with bound err half show ?thesis
    by auto
qed

lemma max_float_nonneg: "0 \<le> max_float"
  by (simp add: max_float_def)

lemma float64_Finite_bound: "float64 y = Finite v \<Longrightarrow> \<bar>v\<bar> \<le> max_float"
  using max_float_nonneg by (auto simp: float64_def Let_def split: if_splits)

lemma round_half_even_tie:
  assumes "z = of_int m + 1 / 2" and "even m"
  shows "round_half_even z = m"
proof -
  have "\<lfloor>z\<rfloor> = m"
    unfolding assms(1) by linarith
  with assms show ?thesis
    unfolding round_half_even_def by simp
qed

lemma float64_rounded:
  assumes lo: "2 powi e \<le> \<bar>y\<bar>" and hi: "\<bar>y\<bar> < 2 powi (e + 1)"
    and e: "- 1022 \<le> e" "e \<le> 1022"
    and m: "round_half_even (y / 2 powi (e - 52)) = m"
  shows "float64 y = Finite (of_int m * 2 powi (e - 52))"
proof -
  have pos: "(0::real) < 2 powi e"
    by (rule zero_less_power_int) simp
  have y: "y \<noteq> 0"
  proof
    assume "y = 0"
    with lo have "(2::real) powi e \<le> 0" by simp
    with pos show False by linarith
  qed
  have ex: "\<lfloor>Transcendental.log 2 \<bar>y\<bar>\<rfloor> = e"
    using lo hi by (rule exponent_eq)
  have "(2::real) powi (e + 1) \<le> 2 powi 1023"
    using e by (intro power_int_increasing) simp_all
  with hi max_float_ge have "\<bar>y\<bar> \<le> max_float"
    by linarith
  from float64_finite [OF this] obtain v where v: "float64 y = Finite v"
    by blast
  have "max (e::int) (- 1022) = e"
    using e by simp
  with v y show ?thesis
    by (simp add: float64_def Let_def ex m split: if_splits)
qed

lemma float64_eval:
  assumes "2 powi e \<le> \<bar>y\<bar>" and "\<bar>y\<bar> < 2 powi (e + 1)"
    and "- 1022 \<le> e" "e \<le> 1022"
    and "\<bar>y / 2 powi (e - 52) - of_int m\<bar> < 1 / 2"
  shows "float64 y = Finite (of_int m * 2 powi (e - 52))"
  using assms(1-4) round_half_even_eq [OF assms(5)] by (rule float64_rounded)

lemma float64_0254: "float64 0.0254 = Finite (3660525777126739 / 2 ^ 57)"
  using float64_eval [of "- 6" "0.0254" 7321051554253478] by simp

lemma float64_453592: "float64 0.453592 = Finite (1021398381089119 / 2 ^ 51)"
  using float64_eval [of "- 2" "0.453592" 8171187048712952] by simp

lemma multiply_Finite:
  assumes "float64 k = Finite c" and "float64 h = Finite h'"
  shows "multiply k (Some (Finite h)) = Some (float64 (h' * c))"
  using assms by (simp add: multiply_def)

lemma product_rounding:
  assumes "\<bar>x\<bar> \<le> max_float" and "\<bar>c\<bar> \<le> 1"
  shows "\<exists>v. float64 (x * c) = Finite v \<and>
     \<bar>v - x * c\<bar> \<le> 2 powi (- 53) * (\<bar>x\<bar> * \<bar>c\<bar>) + 2 powi (- 1075)"
proof -
  have "\<bar>x * c\<bar> = \<bar>x\<bar> * \<bar>c\<bar>"
    by (simp add: abs_mult)
  also have "\<dots> \<le> \<bar>x\<bar> * 1"
    using assms(2) by (intro mult_left_mono) simp_all
  finally have "\<bar>x * c\<bar> \<le> max_float"
    using assms(1) by simp
  from float64_finite [OF this] show ?thesis
    by (auto simp: abs_mult)
qed

lemma scale_accuracy:
  assumes k: "float64 k = Finite c" and c: "\<bar>c\<bar> \<le> 1"
    and kc: "2 powi (- 53) * \<bar>c\<bar> + \<bar>c - k\<bar> \<le> 2 powi (- 52) * \<bar>k\<bar>"
    and h: "float64 h = Finite h"
  shows "\<exists>v. multiply k (Some (Finite h)) = Some (Finite v) \<and>
     \<bar>v - h * k\<bar> \<le> 2 powi (- 52) * \<bar>h * k\<bar> + 2 powi (- 1075)"
proof -
  define u :: real where "u = 2 powi (- 53)"
  define eta :: real where "eta = 2 powi (- 1075)"
  have hb: "\<bar>h\<bar> \<le> max_float"
    using h by (rule float64_Finite_bound)
  from product_rounding [OF hb c] obtain v where v: "float64 (h * c) = Finite v"
    and e1: "\<bar>v - h * c\<bar> \<le> u * (\<bar>h\<bar> * \<bar>c\<bar>) + eta"
    unfolding u_def eta_def by blast
  have m: "multiply k (Some (Finite h)) = Some (Finite v)"
    using multiply_Finite [OF k h] v by simp
  have "\<bar>v - h * k\<bar> \<le> \<bar>v - h * c\<bar> + \<bar>h * c - h * k\<bar>"
    by linarith
  also have "\<bar>h * c - h * k\<bar> = \<bar>h\<bar> * \<bar>c - k\<bar>"
    by (simp add: abs_mult flip: right_diff_distrib)
  finally have "\<bar>v - h * k\<bar> \<le> u * (\<bar>h\<bar> * \<bar>c\<bar>) + eta + \<bar>h\<bar> * \<bar>c - k\<bar>"
    using e1 by linarith
  also have "\<dots> = \<bar>h\<bar> * (u * \<bar>c\<bar> + \<bar>c - k\<bar>) + eta"
    by (simp add: algebra_simps)
  also have "\<dots> \<le> \<bar>h\<bar> * (2 powi (- 52) * \<bar>k\<bar>) + eta"
    using kc unfolding u_def by (intro add_right_mono mult_left_mono) simp_all
  also have "\<dots> = 2 powi (- 52) * \<bar>h * k\<bar> + eta"
    by (simp add: abs_mult)
  finally show ?thesis
    using m unfolding eta_def by blast
qed

lemma scale_accuracy_general:
  assumes k: "float64 k = Finite c" and c: "\<bar>c\<bar> \<le> 1" and k2: "\<bar>k\<bar> \<le> 1 / 2"
    and kc: "2 powi (- 53) * \<bar>c\<bar> + \<bar>c - k\<bar> \<le> 2 powi (- 52) * \<bar>k\<bar>"
    and h: "\<bar>h\<bar> \<le> max_float"
  shows "\<exists>v. multiply k (Some (Finite h)) = Some (Finite v) \<and>
     \<bar>v - h * k\<bar> \<le> 2 powi (- 51) * \<bar>h * k\<bar> + 2 powi (- 1074)"
proof -
  define u :: real where "u = 2 powi (- 53)"
  define eta :: real where "eta = 2 powi (- 1075)"
  define a where "a = \<bar>h\<bar>"
  define b where "b = \<bar>k\<bar>"
  have u: "0 \<le> u" "2 * u \<le> 1"
    by (simp_all add: u_def)
  have eta: "0 \<le> eta"
    unfolding eta_def by (rule less_imp_le) (rule zero_less_power_int, simp)
  have u52: "2 powi (- 52) = 2 * u"
    by (simp add: u_def)
  have u51: "2 powi (- 51) = 4 * u"
    by (simp add: u_def)
  have eta2: "2 powi (- 1074) = 2 * eta"
  proof -
    have "(- 1074 :: int) = - 1075 + 1" by simp
    then have "(2::real) powi (- 1074) = 2 powi (- 1075) * 2 powi 1"
      by (simp only: powi_split)
    then show ?thesis by (simp add: eta_def)
  qed
  have ab: "0 \<le> a" "0 \<le> b" "b \<le> 1 / 2"
    using k2 by (simp_all add: a_def b_def)
  from float64_finite [OF h] obtain h' where h': "float64 h = Finite h'"
    and hb: "\<bar>h'\<bar> \<le> max_float" and e0: "\<bar>h' - h\<bar> \<le> u * a + eta"
    unfolding u_def eta_def a_def by blast
  from product_rounding [OF hb c] obtain v where v: "float64 (h' * c) = Finite v"
    and e1: "\<bar>v - h' * c\<bar> \<le> u * (\<bar>h'\<bar> * \<bar>c\<bar>) + eta"
    unfolding u_def eta_def by blast
  have m: "multiply k (Some (Finite h)) = Some (Finite v)"
    using multiply_Finite [OF k h'] v by simp
  have a': "\<bar>h'\<bar> \<le> a + (u * a + eta)"
    using e0 unfolding a_def by linarith
  have kc': "u * \<bar>c\<bar> + \<bar>c - k\<bar> \<le> 2 * u * b"
    using kc unfolding u52 u_def b_def by simp
  have "\<bar>v - h * k\<bar> \<le> \<bar>v - h' * c\<bar> + \<bar>h' * c - h' * k\<bar> + \<bar>h' * k - h * k\<bar>"
    by linarith
  also have "\<bar>h' * c - h' * k\<bar> = \<bar>h'\<bar> * \<bar>c - k\<bar>"
    by (simp add: abs_mult flip: right_diff_distrib)
  also have "\<bar>h' * k - h * k\<bar> = b * \<bar>h' - h\<bar>"
    by (simp add: abs_mult b_def flip: left_diff_distrib)
  finally have "\<bar>v - h * k\<bar> \<le> u * (\<bar>h'\<bar> * \<bar>c\<bar>) + eta + \<bar>h'\<bar> * \<bar>c - k\<bar> + b * \<bar>h' - h\<bar>"
    using e1 by linarith
  also have "\<dots> = \<bar>h'\<bar> * (u * \<bar>c\<bar> + \<bar>c - k\<bar>) + eta + b * \<bar>h' - h\<bar>"
    by (simp add: algebra_simps)
  also have "\<dots> \<le> \<bar>h'\<bar> * (2 * u * b) + eta + b * (u * a + eta)"
    using kc' e0 ab by (intro add_mono mult_left_mono) simp_all
  also have "\<dots> \<le> (a + (u * a + eta)) * (2 * u * b) + eta + b * (u * a + eta)"
    using a' u ab by (intro add_right_mono mult_right_mono) simp_all
  also have "\<dots> = 3 * (u * a * b) + (2 * u) * (u * a * b) + (2 * u * b) * eta + eta + b * eta"
    by (simp add: algebra_simps)
  also have "\<dots> \<le> 3 * (u * a * b) + 1 * (u * a * b) + (1 / 2) * eta + eta + (1 / 2) * eta"
  proof -
    have "0 \<le> u * a * b"
      using u ab by simp
    then have 1: "(2 * u) * (u * a * b) \<le> 1 * (u * a * b)"
      using u by (intro mult_right_mono) simp_all
    have "2 * u * b \<le> 1 * (1 / 2)"
      using u ab by (intro mult_mono) simp_all
    then have 2: "(2 * u * b) * eta \<le> (1 / 2) * eta"
      using eta by (intro mult_right_mono) simp_all
    have 3: "b * eta \<le> (1 / 2) * eta"
      using ab eta by (intro mult_right_mono) simp_all
    from 1 2 3 show ?thesis by linarith
  qed
  also have "\<dots> = 4 * u * (a * b) + 2 * eta"
    by simp
  finally have "\<bar>v - h * k\<bar> \<le> 2 powi (- 51) * \<bar>h * k\<bar> + 2 powi (- 1074)"
    unfolding u51 eta2 by (simp add: a_def b_def abs_mult)
  with m show ?thesis
    by blast
qed

lemma constant_0254:
  "\<bar>3660525777126739 / 2 ^ 57 :: real\<bar> \<le> 1"
  "2 powi (- 53) * \<bar>3660525777126739 / 2 ^ 57 :: real\<bar> + \<bar>3660525777126739 / 2 ^ 57 - 0.0254 :: real\<bar>
     \<le> 2 powi (- 52) * \<bar>0.0254 :: real\<bar>"
  by simp_all

lemma constant_453592:
  "\<bar>1021398381089119 / 2 ^ 51 :: real\<bar> \<le> 1"
  "2 powi (- 53) * \<bar>1021398381089119 / 2 ^ 51 :: real\<bar> + \<bar>1021398381089119 / 2 ^ 51 - 0.453592 :: real\<bar>
     \<le> 2 powi (- 52) * \<bar>0.453592 :: real\<bar>"
  by simp_all

subsection \<open>Selection and transformation\<close>

lemma select_present:
  "set labels \<subseteq> set (columns t) \<Longrightarrow>
   select labels t = Inr \<lparr>columns = labels,
      rows = map (\<lambda>r c. if c \<in> set labels then Some (cell_at r c) else None) (rows t)\<rparr>"
proof -
  assume "set labels \<subseteq> set (columns t)"
  then have "filter (\<lambda>c. c \<notin> set (columns t)) labels = []"
    by (auto simp: filter_empty_conv)
  then show ?thesis
    by (simp add: select_def)
qed

lemma select_missing:
  "\<not> set labels \<subseteq> set (columns t) \<Longrightarrow> \<exists>e. select labels t = Inl e"
proof -
  assume "\<not> set labels \<subseteq> set (columns t)"
  then have "filter (\<lambda>c. c \<notin> set (columns t)) labels \<noteq> []"
    by (auto simp: filter_empty_conv)
  then show ?thesis
    by (cases "filter (\<lambda>c. c \<notin> set (columns t)) labels") (simp_all add: select_def)
qed

lemma zip_map_same: "zip xs (map f xs) = map (\<lambda>x. (x, f x)) xs"
  by (induction xs) simp_all

lemma cell_at_if [simp]: "cell_at (\<lambda>c. if P c then Some (f c) else None) c = (if P c then f c else Null)"
  by (simp add: cell_at_def)

lemma transform_frame_present:
  assumes "''height'' \<in> set (columns df)" and "''weight'' \<in> set (columns df)"
  shows "fst (transform_frame p df) =
           df\<lparr>rows := map (\<lambda>r. r(''height'' \<mapsto> float_cell (multiply 0.0254 (to_numeric p (cell_at r ''height''))),
                                  ''weight'' \<mapsto> float_cell (multiply 0.453592 (to_numeric p (cell_at r ''weight'')))))
                           (rows df)\<rparr>"
    and "snd (transform_frame p df) = select [''name'', ''height'', ''weight''] (fst (transform_frame p df))"
proof -
  have sel: "select [''height'', ''weight''] df = Inr \<lparr>columns = [''height'', ''weight''],
      rows = map (\<lambda>r c. if c \<in> set [''height'', ''weight''] then Some (cell_at r c) else None) (rows df)\<rparr>"
    using assms by (intro select_present) simp
  show "fst (transform_frame p df) =
           df\<lparr>rows := map (\<lambda>r. r(''height'' \<mapsto> float_cell (multiply 0.0254 (to_numeric p (cell_at r ''height''))),
                                  ''weight'' \<mapsto> float_cell (multiply 0.453592 (to_numeric p (cell_at r ''weight'')))))
                           (rows df)\<rparr>"
    unfolding transform_frame_def sel
    by (simp add: Let_def zip_map_same zip_map2 o_def)
  show "snd (transform_frame p df) = select [''name'', ''height'', ''weight''] (fst (transform_frame p df))"
    unfolding transform_frame_def sel
    by (simp add: Let_def)
qed

lemma transform_frame_absent:
  assumes "''height'' \<notin> set (columns df) \<or> ''weight'' \<notin> set (columns df)"
  shows "fst (transform_frame p df) = df" and "\<exists>e. snd (transform_frame p df) = Inl e"
proof -
  from assms have "\<not> set [''height'', ''weight''] \<subseteq> set (columns df)"
    by auto
  from select_missing [OF this] obtain e where "select [''height'', ''weight''] df = Inl e" ..
  then show "fst (transform_frame p df) = df" and "\<exists>e. snd (transform_frame p df) = Inl e"
    by (simp_all add: transform_frame_def)
qed

lemma fst_transform_data: "fst (transform_data p df s) = snd (transform_frame p df)"
  by (simp add: transform_data_def fst_log_function)

lemma cell_at_upd: "cell_at (r(c \<mapsto> v)) c' = (if c' = c then v else cell_at r c')"
  by (simp add: cell_at_def)

lemma metric_cases:
  "float_cell (multiply k (to_numeric p v)) =
     (case v of
        Null \<Rightarrow> Null
      | Num x \<Rightarrow> float_cell (multiply k (Some x))
      | Str t \<Rightarrow> (case p t of None \<Rightarrow> Null | Some x \<Rightarrow> float_cell (multiply k (Some x))))"
  by (cases v) (simp_all add: multiply_def split: option.splits)

lemma float64_70: "float64 70 = Finite 70"
  using float64_eval [of 6 70 4925812092436480] by simp

lemma float64_180: "float64 180 = Finite 180"
  using float64_eval [of 7 180 6333186975989760] by simp

lemma multiply_70: "multiply 0.0254 (Some (Finite 70)) = Some (Finite (4003700068732371 / 2 ^ 51))"
proof -
  have "float64 (70 * (3660525777126739 / 2 ^ 57)) = Finite (4003700068732371 / 2 ^ 51)"
    using float64_eval [of 0 "70 * (3660525777126739 / 2 ^ 57)" 8007400137464742] by simp
  with multiply_Finite [OF float64_0254 float64_70] show ?thesis
    by simp
qed

lemma multiply_180: "multiply 0.453592 (Some (Finite 180)) = Some (Finite (2872682946813147 / 2 ^ 45))"
proof -
  have "float64 (180 * (1021398381089119 / 2 ^ 51)) = Finite (2872682946813147 / 2 ^ 45)"
    using float64_eval [of 6 "180 * (1021398381089119 / 2 ^ 51)" 5745365893626294] by simp
  with multiply_Finite [OF float64_453592 float64_180] show ?thesis
    by simp
qed

text \<open>
  Three times 0.0254 in float64 is the float written 0.07619999999999999, not 0.0762: the
  product of 3 and the float of 0.0254 lies half way between two floats and is rounded to
  the even one, which is the smaller.
\<close>

lemma multiply_3:
  "multiply 0.0254 (Some (Finite 3)) = Some (Finite (1372697166422527 / 2 ^ 54))"
  "(1372697166422527 / 2 ^ 54 :: real) < 0.0762"
proof -
  have 3: "float64 3 = Finite 3"
    using float64_eval [of 1 3 6755399441055744] by simp
  have "round_half_even (3 * (3660525777126739 / 2 ^ 57) / 2 powi (- 4 - 52)) = 5490788665690108"
    by (rule round_half_even_tie) simp_all
  then have "float64 (3 * (3660525777126739 / 2 ^ 57)) = Finite (1372697166422527 / 2 ^ 54)"
    using float64_rounded [of "- 4" "3 * (3660525777126739 / 2 ^ 57)" 5490788665690108] by simp
  with multiply_Finite [OF float64_0254 3]
  show "multiply 0.0254 (Some (Finite 3)) = Some (Finite (1372697166422527 / 2 ^ 54))"
    by simp
  show "(1372697166422527 / 2 ^ 54 :: real) < 0.0762"
    by simp
qed

text \<open>The string \<open>inf\<close> is coerced to the infinity, which stays the infinity.\<close>

lemma multiply_inf:
  "float_cell (multiply 0.0254 (to_numeric example_number (Str ''inf''))) = Num PosInf"
  unfolding multiply_def float64_0254 by (simp add: example_number_def)

lemmas multiply_example = multiply_70 [simplified] multiply_180 [simplified]

lemma multiply_infinity:
  "multiply 0.0254 (Some PosInf) = Some PosInf" "multiply 0.0254 (Some NegInf) = Some NegInf"
  "multiply 0.453592 (Some PosInf) = Some PosInf" "multiply 0.453592 (Some NegInf) = Some NegInf"
  unfolding multiply_def float64_0254 float64_453592 by simp_all

lemma transform_data_result:
  assumes "''name'' \<in> set (columns df)" and "''height'' \<in> set (columns df)"
    and "''weight'' \<in> set (columns df)"
  shows "fst (transform_data p df s) =
     Inr \<lparr>columns = [''name'', ''height'', ''weight''],
          rows = map (\<lambda>r c. if c \<in> set [''name'', ''height'', ''weight'']
                       then Some (cell_at (r(''height'' \<mapsto> float_cell (multiply 0.0254 (to_numeric p (cell_at r ''height''))),
                                  ''weight'' \<mapsto> float_cell (multiply 0.453592 (to_numeric p (cell_at r ''weight''))))) c)
                       else None) (rows df)\<rparr>"
proof -
  let ?df' = "fst (transform_frame p df)"
  have cols: "columns ?df' = columns df"
    using assms by (simp add: transform_frame_present)
  have "set [''name'', ''height'', ''weight''] \<subseteq> set (columns ?df')"
    unfolding cols using assms by simp
  from select_present [OF this] show ?thesis
    unfolding fst_transform_data transform_frame_present(2) [OF assms(2,3)]
    using assms by (simp add: transform_frame_present(1) o_def cong: if_cong)
qed

lemma people_columns:
  "''name'' \<in> set (columns people)" "''height'' \<in> set (columns people)"
  "''weight'' \<in> set (columns people)"
  by (simp_all add: people_def)

text \<open>
  C5. For every frame that has the columns \<open>name\<close>, \<open>height\<close> and \<open>weight\<close>,
  which the transformation requires, \<open>transform_data\<close> returns a frame (it does not raise)
  with one row for each row of the input, in which, in every row, a number in \<open>height\<close>
  is multiplied by 0.0254 and a number in \<open>weight\<close> by 0.453592, a string that parses as
  a number is converted in the same way, and a cell that cannot be coerced to a number is
  null: it is not replaced by 0. The multiplication is that of float64. For a number \<open>h\<close>
  that is a float64 its result is within the relative distance \<open>2 powi - 52\<close>, the
  machine epsilon, of the real product, up to the spacing of the smallest floats; for any
  number in the range of float64 (an integer above \<open>2 ^ 53\<close> is rounded first) within
  twice that; an infinity stays the infinity.
\<close>

theorem transform_data_numeric_law:
  assumes "''name'' \<in> set (columns df)" and "''height'' \<in> set (columns df)"
    and "''weight'' \<in> set (columns df)"
  shows "\<exists>out. fst (transform_data p df s) = Inr out \<and>
     length (rows out) = length (rows df) \<and>
     (\<forall>i<length (rows df).
        cell_at (rows out ! i) ''height'' =
          (case cell_at (rows df ! i) ''height'' of
             Null \<Rightarrow> Null
           | Num x \<Rightarrow> float_cell (multiply 0.0254 (Some x))
           | Str t \<Rightarrow> (case p t of None \<Rightarrow> Null
                       | Some x \<Rightarrow> float_cell (multiply 0.0254 (Some x)))) \<and>
        cell_at (rows out ! i) ''weight'' =
          (case cell_at (rows df ! i) ''weight'' of
             Null \<Rightarrow> Null
           | Num x \<Rightarrow> float_cell (multiply 0.453592 (Some x))
           | Str t \<Rightarrow> (case p t of None \<Rightarrow> Null
                       | Some x \<Rightarrow> float_cell (multiply 0.453592 (Some x))))) \<and>
     (\<forall>h. float64 h = Finite h \<longrightarrow>
        (\<exists>v. float_cell (multiply 0.0254 (Some (Finite h))) = Num (Finite v) \<and>
           \<bar>v - h * 0.0254\<bar> \<le> 2 powi (- 52) * \<bar>h * 0.0254\<bar> + 2 powi (- 1075)) \<and>
        (\<exists>v. float_cell (multiply 0.453592 (Some (Finite h))) = Num (Finite v) \<and>
           \<bar>v - h * 0.453592\<bar> \<le> 2 powi (- 52) * \<bar>h * 0.453592\<bar> + 2 powi (- 1075))) \<and>
     (\<forall>h. \<bar>h\<bar> \<le> max_float \<longrightarrow>
        (\<exists>v. float_cell (multiply 0.0254 (Some (Finite h))) = Num (Finite v) \<and>
           \<bar>v - h * 0.0254\<bar> \<le> 2 powi (- 51) * \<bar>h * 0.0254\<bar> + 2 powi (- 1074)) \<and>
        (\<exists>v. float_cell (multiply 0.453592 (Some (Finite h))) = Num (Finite v) \<and>
           \<bar>v - h * 0.453592\<bar> \<le> 2 powi (- 51) * \<bar>h * 0.453592\<bar> + 2 powi (- 1074))) \<and>
     float_cell (multiply 0.0254 (Some PosInf)) = Num PosInf \<and>
     float_cell (multiply 0.0254 (Some NegInf)) = Num NegInf \<and>
     float_cell (multiply 0.453592 (Some PosInf)) = Num PosInf \<and>
     float_cell (multiply 0.453592 (Some NegInf)) = Num NegInf"
proof -
  have rows_law: "\<exists>out. fst (transform_data p df s) = Inr out \<and>
     length (rows out) = length (rows df) \<and>
     (\<forall>i<length (rows df).
        cell_at (rows out ! i) ''height'' =
          (case cell_at (rows df ! i) ''height'' of
             Null \<Rightarrow> Null
           | Num x \<Rightarrow> float_cell (multiply 0.0254 (Some x))
           | Str t \<Rightarrow> (case p t of None \<Rightarrow> Null
                       | Some x \<Rightarrow> float_cell (multiply 0.0254 (Some x)))) \<and>
        cell_at (rows out ! i) ''weight'' =
          (case cell_at (rows df ! i) ''weight'' of
             Null \<Rightarrow> Null
           | Num x \<Rightarrow> float_cell (multiply 0.453592 (Some x))
           | Str t \<Rightarrow> (case p t of None \<Rightarrow> Null
                       | Some x \<Rightarrow> float_cell (multiply 0.453592 (Some x)))))"
    unfolding transform_data_result [OF assms]
    by (simp add: cell_at_upd metric_cases split: cell.split option.split)
  have tight: "(\<exists>v. float_cell (multiply 0.0254 (Some (Finite h))) = Num (Finite v) \<and>
           \<bar>v - h * 0.0254\<bar> \<le> 2 powi (- 52) * \<bar>h * 0.0254\<bar> + 2 powi (- 1075)) \<and>
        (\<exists>v. float_cell (multiply 0.453592 (Some (Finite h))) = Num (Finite v) \<and>
           \<bar>v - h * 0.453592\<bar> \<le> 2 powi (- 52) * \<bar>h * 0.453592\<bar> + 2 powi (- 1075))"
    if "float64 h = Finite h" for h
    using scale_accuracy [OF float64_0254 constant_0254 that]
      scale_accuracy [OF float64_453592 constant_453592 that]
    by auto
  have k2: "\<bar>0.0254 :: real\<bar> \<le> 1 / 2" "\<bar>0.453592 :: real\<bar> \<le> 1 / 2"
    by simp_all
  have wide: "(\<exists>v. float_cell (multiply 0.0254 (Some (Finite h))) = Num (Finite v) \<and>
           \<bar>v - h * 0.0254\<bar> \<le> 2 powi (- 51) * \<bar>h * 0.0254\<bar> + 2 powi (- 1074)) \<and>
        (\<exists>v. float_cell (multiply 0.453592 (Some (Finite h))) = Num (Finite v) \<and>
           \<bar>v - h * 0.453592\<bar> \<le> 2 powi (- 51) * \<bar>h * 0.453592\<bar> + 2 powi (- 1074))"
    if "\<bar>h\<bar> \<le> max_float" for h
    using scale_accuracy_general [OF float64_0254 constant_0254(1) k2(1) constant_0254(2) that]
      scale_accuracy_general [OF float64_453592 constant_453592(1) k2(2) constant_453592(2) that]
    by auto
  from rows_law tight wide show ?thesis
    by (simp only: multiply_infinity float_cell.simps) blast
qed

text \<open>
  Witness for C5: the frame \<open>people\<close> has the three columns; Bob's height 70 becomes the
  float64 that is written 1.778 and his weight, the string 180, the float64 that is
  written 81.64656; the height \<open>tall\<close> and the missing weight of the second row become
  null. The number 70 is a float64.
\<close>

theorem transform_data_numeric_law_witness:
  "''name'' \<in> set (columns people) \<and> ''height'' \<in> set (columns people) \<and>
   ''weight'' \<in> set (columns people) \<and> float64 70 = Finite 70 \<and> \<bar>70 :: real\<bar> \<le> max_float \<and>
   (\<exists>out. fst (transform_data example_number people start) = Inr out \<and>
      length (rows out) = 2 \<and>
      cell_at (rows out ! 0) ''height'' = Num (Finite (4003700068732371 / 2 ^ 51)) \<and>
      cell_at (rows out ! 0) ''weight'' = Num (Finite (2872682946813147 / 2 ^ 45)) \<and>
      cell_at (rows out ! 1) ''height'' = Null \<and>
      cell_at (rows out ! 1) ''weight'' = Null) \<and>
   (\<exists>v. float_cell (multiply 0.0254 (Some (Finite 70))) = Num (Finite v) \<and>
      \<bar>v - 70 * 0.0254\<bar> \<le> 2 powi (- 52) * \<bar>70 * 0.0254\<bar> + 2 powi (- 1075))"
proof -
  from transform_data_numeric_law [OF people_columns, of example_number start]
  obtain out where out: "fst (transform_data example_number people start) = Inr out"
    and rows_out: "length (rows out) = length (rows people)"
    and law: "\<forall>i<length (rows people).
        cell_at (rows out ! i) ''height'' =
          (case cell_at (rows people ! i) ''height'' of
             Null \<Rightarrow> Null
           | Num x \<Rightarrow> float_cell (multiply 0.0254 (Some x))
           | Str t \<Rightarrow> (case example_number t of None \<Rightarrow> Null
                       | Some x \<Rightarrow> float_cell (multiply 0.0254 (Some x)))) \<and>
        cell_at (rows out ! i) ''weight'' =
          (case cell_at (rows people ! i) ''weight'' of
             Null \<Rightarrow> Null
           | Num x \<Rightarrow> float_cell (multiply 0.453592 (Some x))
           | Str t \<Rightarrow> (case example_number t of None \<Rightarrow> Null
                       | Some x \<Rightarrow> float_cell (multiply 0.453592 (Some x))))"
    and tight: "\<forall>h. float64 h = Finite h \<longrightarrow>
        (\<exists>v. float_cell (multiply 0.0254 (Some (Finite h))) = Num (Finite v) \<and>
           \<bar>v - h * 0.0254\<bar> \<le> 2 powi (- 52) * \<bar>h * 0.0254\<bar> + 2 powi (- 1075)) \<and>
        (\<exists>v. float_cell (multiply 0.453592 (Some (Finite h))) = Num (Finite v) \<and>
           \<bar>v - h * 0.453592\<bar> \<le> 2 powi (- 52) * \<bar>h * 0.453592\<bar> + 2 powi (- 1075))"
    by blast
  have len: "length (rows people) = 2"
    by (simp add: people_def)
  from law len have cells: "cell_at (rows out ! 0) ''height'' = Num (Finite (4003700068732371 / 2 ^ 51))"
      "cell_at (rows out ! 0) ''weight'' = Num (Finite (2872682946813147 / 2 ^ 45))"
      "cell_at (rows out ! 1) ''height'' = Null"
      "cell_at (rows out ! 1) ''weight'' = Null"
    by (simp_all add: people_def cell_at_def example_number_def multiply_example)
  have big: "\<bar>70 :: real\<bar> \<le> max_float"
    using float64_Finite_bound [OF float64_70] .
  from tight float64_70
  have "\<exists>v. float_cell (multiply 0.0254 (Some (Finite 70))) = Num (Finite v) \<and>
      \<bar>v - 70 * 0.0254\<bar> \<le> 2 powi (- 52) * \<bar>70 * 0.0254\<bar> + 2 powi (- 1075)"
    by blast
  moreover have "length (rows out) = 2"
    using rows_out len by simp
  ultimately show ?thesis
    using out cells people_columns float64_70 big by blast
qed

text \<open>
  C6. For every frame that has the columns \<open>name\<close>, \<open>height\<close> and \<open>weight\<close>, the frame
  that \<open>transform_data\<close> returns has exactly these three columns, in this order (every
  row holds these three labels and no other, so every other column is dropped), and it
  has as many rows as the input, each with the \<open>name\<close> cell of the input row, null or not.
\<close>

theorem transform_data_columns:
  assumes "''name'' \<in> set (columns df)" and "''height'' \<in> set (columns df)"
    and "''weight'' \<in> set (columns df)"
  shows "\<exists>out. fst (transform_data p df s) = Inr out \<and>
     columns out = [''name'', ''height'', ''weight''] \<and>
     length (rows out) = length (rows df) \<and>
     (\<forall>r\<in>set (rows out). dom r = {''name'', ''height'', ''weight''}) \<and>
     (\<forall>i<length (rows df). cell_at (rows out ! i) ''name'' = cell_at (rows df ! i) ''name'')"
  unfolding transform_data_result [OF assms]
  by (auto simp: cell_at_upd dom_def split: if_splits)

text \<open>
  Witness for C6: \<open>people\<close> has a fourth column \<open>city\<close> and a second row whose name is
  null; the result has the three columns and both rows.
\<close>

theorem transform_data_columns_witness:
  "''name'' \<in> set (columns people) \<and> ''height'' \<in> set (columns people) \<and>
   ''weight'' \<in> set (columns people) \<and> ''city'' \<in> set (columns people) \<and>
   cell_at (rows people ! 1) ''name'' = Null \<and>
   (\<exists>out. fst (transform_data example_number people start) = Inr out \<and>
      columns out = [''name'', ''height'', ''weight''] \<and>
      length (rows out) = 2 \<and>
      cell_at (rows out ! 0) ''name'' = Str ''Bob'' \<and>
      cell_at (rows out ! 1) ''name'' = Null)"
proof -
  from transform_data_columns [OF people_columns, of example_number start]
  obtain out where out: "fst (transform_data example_number people start) = Inr out"
    and cols: "columns out = [''name'', ''height'', ''weight'']"
    and len: "length (rows out) = length (rows people)"
    and names: "\<forall>i<length (rows people). cell_at (rows out ! i) ''name'' = cell_at (rows people ! i) ''name''"
    by blast
  have l2: "length (rows people) = 2"
    by (simp add: people_def)
  from names l2 have "cell_at (rows out ! 0) ''name'' = Str ''Bob''"
    and "cell_at (rows out ! 1) ''name'' = Null"
    by (simp_all add: people_def cell_at_def)
  moreover have "''city'' \<in> set (columns people)" and "cell_at (rows people ! 1) ''name'' = Null"
    by (simp_all add: people_def cell_at_def)
  ultimately show ?thesis
    using out cols len l2 people_columns by auto
qed

text \<open>
  C7 as stated fails: after the call the caller's frame does not hold the cells it held
  before. In \<open>people\<close> the height of the first row is 70 before the call and, after it,
  the float64 that is written 1.778.
\<close>

theorem transform_data_overwrites_caller_counterexample:
  "cell_at (rows people ! 0) ''height'' = Num (Finite 70) \<and>
   cell_at (rows (fst (transform_frame example_number people)) ! 0) ''height'' =
     Num (Finite (4003700068732371 / 2 ^ 51))"
  by (simp add: transform_frame_present people_def cell_at_def multiply_example)

text \<open>
  C7 (as amended). For every frame with the columns \<open>height\<close> and \<open>weight\<close>,
  \<open>transform_data\<close> overwrites these two columns of the frame it is given with the
  converted values, in place, and leaves the column list, the number of rows and the cells
  of every other column of that frame as they were; what it returns is a new frame, the
  selection of the three columns from the frame so changed.
\<close>

theorem transform_frame_in_place:
  assumes "''height'' \<in> set (columns df)" and "''weight'' \<in> set (columns df)"
  shows "columns (fst (transform_frame p df)) = columns df \<and>
     length (rows (fst (transform_frame p df))) = length (rows df) \<and>
     (\<forall>i<length (rows df).
        cell_at (rows (fst (transform_frame p df)) ! i) ''height'' =
          float_cell (multiply 0.0254 (to_numeric p (cell_at (rows df ! i) ''height''))) \<and>
        cell_at (rows (fst (transform_frame p df)) ! i) ''weight'' =
          float_cell (multiply 0.453592 (to_numeric p (cell_at (rows df ! i) ''weight''))) \<and>
        (\<forall>c. c \<noteq> ''height'' \<longrightarrow> c \<noteq> ''weight'' \<longrightarrow>
           (rows (fst (transform_frame p df)) ! i) c = (rows df ! i) c)) \<and>
     snd (transform_frame p df) =
       select [''name'', ''height'', ''weight''] (fst (transform_frame p df))"
  using transform_frame_present(2) [OF assms, of p]
  by (simp add: transform_frame_present(1) [OF assms] cell_at_upd)

text \<open>
  Witness for C7 as amended: in \<open>people\<close> after the call, the columns and the two rows
  are still there, Bob's height and weight are metric, and his city is untouched.
\<close>

theorem transform_frame_in_place_witness:
  "''height'' \<in> set (columns people) \<and> ''weight'' \<in> set (columns people) \<and>
   columns (fst (transform_frame example_number people)) = columns people \<and>
   length (rows (fst (transform_frame example_number people))) = 2 \<and>
   cell_at (rows (fst (transform_frame example_number people)) ! 0) ''height'' =
     Num (Finite (4003700068732371 / 2 ^ 51)) \<and>
   cell_at (rows (fst (transform_frame example_number people)) ! 0) ''weight'' =
     Num (Finite (2872682946813147 / 2 ^ 45)) \<and>
   (rows (fst (transform_frame example_number people)) ! 0) ''city'' = Some (Str ''Oslo'')"
proof -
  have l2: "length (rows people) = 2"
    by (simp add: people_def)
  from transform_frame_in_place [OF people_columns(2,3), of example_number] l2
  have "columns (fst (transform_frame example_number people)) = columns people"
    and "length (rows (fst (transform_frame example_number people))) = 2"
    and "cell_at (rows (fst (transform_frame example_number people)) ! 0) ''height'' =
          float_cell (multiply 0.0254 (to_numeric example_number (cell_at (rows people ! 0) ''height'')))"
    and "cell_at (rows (fst (transform_frame example_number people)) ! 0) ''weight'' =
          float_cell (multiply 0.453592 (to_numeric example_number (cell_at (rows people ! 0) ''weight'')))"
    and "(rows (fst (transform_frame example_number people)) ! 0) ''city'' = (rows people ! 0) ''city''"
    by simp_all
  then show ?thesis
    using people_columns by (simp add: people_def cell_at_def example_number_def multiply_example)
qed

subsection \<open>Concatenation\<close>








subsection \<open>Failures of single files\<close>

lemma attempt_state_independent: "fst (attempt w file s) = fst (attempt w file t)"
  by (simp only: fst_attempt)

lemma log_file_log: "log_file (log m s) = log_file s @ [m]"
  by (simp add: log_def)

lemma process_file_outcome:
  "\<exists>s1. process_file w file s =
     (case fst (attempt w file t) of
        Inl e \<Rightarrow> (Inr empty_frame,
                  log (''process_file'' @ '' completed. '' @ context_info ''Processing file'')
                    (log (handler file e) s1))
      | Inr df \<Rightarrow> (Inr df, log (''process_file'' @ '' completed. '' @ context_info ''Processing file'') s1))"
proof -
  let ?s0 = "log (''process_file'' @ '' started. '' @ context_info ''Processing file'') s"
  obtain r s1 where a: "attempt w file ?s0 = (r, s1)"
    by (cases "attempt w file ?s0")
  have "fst (attempt w file t) = fst (attempt w file ?s0)"
    by (rule attempt_state_independent)
  with a have r: "fst (attempt w file t) = r"
    by simp
  have "process_file w file s =
     (case r of
        Inl e \<Rightarrow> (Inr empty_frame,
                  log (''process_file'' @ '' completed. '' @ context_info ''Processing file'')
                    (log (handler file e) s1))
      | Inr df \<Rightarrow> (Inr df, log (''process_file'' @ '' completed. '' @ context_info ''Processing file'') s1))"
    unfolding process_file_def log_function_def a by (cases r) simp_all
  then show ?thesis
    unfolding r by blast
qed

lemma last_part_ex:
  "last_part ''./unzipped_folder/c.txt'' = ''txt''"
  "last_part ''./unzipped_folder/a.csv'' = ''csv''"
  "last_part ''./unzipped_folder/b.xml'' = ''xml''"
  "last_part ''./unzipped_folder/d.xml'' = ''xml''"
  "last_part ''./unzipped_folder/e.json'' = ''json''"
  "last_part ''./unzipped_folder/h.csv'' = ''csv''"
  by (simp_all add: last_part_def)

text \<open>
  What \<open>process_file\<close> does with a failure, for every world, file and state: it returns
  a frame and raises nothing; when the body of its \<open>try\<close> block raises an exception
  \<open>e\<close>, the frame is the empty frame and the log holds the message of the handler for
  \<open>e\<close>. So \<open>gather\<close> over the tasks of any list of files, completed in any order,
  raises nothing either and returns one result per file. Exceptions are the subclasses of
  \<open>Exception\<close>.
\<close>

lemma process_file_catches:
  "(\<exists>df s'. process_file w file s = (Inr df, s') \<and>
      (\<forall>e. fst (attempt w file s) = Inl e \<longrightarrow>
         df = empty_frame \<and> handler file e \<in> set (log_file s'))) \<and>
   (\<exists>results s'. gather order (map (process_file w) files) s = (Inr results, s') \<and>
      length results = length files)"
proof
  from process_file_outcome [of w "file" s s] obtain s1 where
    p: "process_file w file s =
     (case fst (attempt w file s) of
        Inl e \<Rightarrow> (Inr empty_frame,
                  log (''process_file'' @ '' completed. '' @ context_info ''Processing file'')
                    (log (handler file e) s1))
      | Inr df \<Rightarrow> (Inr df, log (''process_file'' @ '' completed. '' @ context_info ''Processing file'') s1))"
    ..
  show "\<exists>df s'. process_file w file s = (Inr df, s') \<and>
      (\<forall>e. fst (attempt w file s) = Inl e \<longrightarrow>
         df = empty_frame \<and> handler file e \<in> set (log_file s'))"
  proof (cases "fst (attempt w file s)")
    case (Inl e)
    with p show ?thesis by (simp add: log_file_log)
  next
    case (Inr df)
    with p show ?thesis by simp
  qed
next
  obtain r s' where g: "gather order (map (process_file w) files) s = (r, s')"
    by (cases "gather order (map (process_file w) files) s")
  with gather_process_file [of order w files s s]
  have "r = Inr (map (\<lambda>file. case fst (attempt w file s) of Inl e \<Rightarrow> empty_frame | Inr df \<Rightarrow> df) files)"
    by simp
  with g show "\<exists>results s'. gather order (map (process_file w) files) s = (Inr results, s') \<and>
      length results = length files"
    by simp
qed

text \<open>
  The log entries of a failed task, in full: the start of the task, the start of the
  extraction when an extractor was found, the message of the \<open>except\<close> clause that
  caught the exception, and the completion of the task.
\<close>

lemma process_file_unsupported_log:
  assumes "get_extractor (last_part file) = Unsupported_lambda"
  shows "process_file w file s =
     (Inr empty_frame,
      s\<lparr>log_file := log_file s @
         [''process_file started. Context: Processing file'',
          ''Error processing file '' @ file @ '': '' @ message no_attribute,
          ''process_file completed. Context: Processing file'']\<rparr>)"
  using assms
  by (simp add: process_file_def log_function_def attempt_def log_def context_info_def
      no_attribute_def)

lemma process_file_failure_log:
  assumes "get_extractor (last_part file) = Instance x" and "parse w x file = Inl e"
  shows "process_file w file s =
     (Inr empty_frame,
      s\<lparr>log_file := log_file s @
         [''process_file started. Context: Processing file'',
          ''extract started. Context: '' @ extract_context x,
          handler file e,
          ''process_file completed. Context: Processing file'']\<rparr>)"
proof -
  have "extract_context x \<noteq> []"
    by (cases x) simp_all
  with assms show ?thesis
    by (simp add: process_file_def log_function_def attempt_def extract_file_def log_def
        context_info_def)
qed

lemma handler_messages:
  "handler file (ValueError m) = ''ValueError processing file '' @ file @ '': '' @ m"
  "handler file (FileNotFoundError m) = ''FileNotFoundError: '' @ m"
  "handler file (AttributeError m) = ''Error processing file '' @ file @ '': '' @ m"
  "handler file (KeyError m) = ''Error processing file '' @ file @ '': '' @ m"
  "handler file (OtherException m) = ''Error processing file '' @ file @ '': '' @ m"
  by simp_all

text \<open>
  C9 as stated fails: a file that is extracted without error and holds no record is not
  always indistinguishable from a failed file. A CSV file with a header and no record
  gives a frame with no rows that keeps its three columns, while a failed file gives the
  frame with no columns.
\<close>

theorem header_only_differs_from_failure:
  "fst (process_file (directory []) ''./unzipped_folder/h.csv'' start) = Inr header_only \<and>
   rows header_only = [] \<and>
   fst (process_file (directory []) ''./unzipped_folder/b.xml'' start) = Inr empty_frame \<and>
   columns header_only \<noteq> columns empty_frame"
  by (simp add: fst_process_file [where t = start] fst_attempt last_part_ex get_extractor_cases
      directory_def example_parse_def header_only_def empty_frame_def)

text \<open>
  C9 (as amended). When the attempt on a file fails, with any exception, \<open>process_file\<close>
  returns the empty frame (no columns, no rows); the type of its result has no value that
  marks a failure. A file that is extracted without error gives the same result as a failed
  file exactly when its frame is the empty frame, with no rows and no columns: such a
  file cannot be told apart from a failed one, and every other one can.
\<close>

theorem failed_file_gives_empty_frame:
  assumes "fst (attempt w file s) = Inl e"
    and "fst (attempt w' file' s') = Inr df"
  shows "fst (process_file w file s) = Inr empty_frame \<and>
     (fst (process_file w' file' s') = fst (process_file w file s) \<longleftrightarrow> df = empty_frame)"
proof -
  have "fst (process_file w file s) = Inr empty_frame"
    using assms(1) by (simp add: fst_process_file [where t = s])
  moreover have "fst (process_file w' file' s') = Inr df"
    using assms(2) by (simp add: fst_process_file [where t = s'])
  ultimately show ?thesis
    by simp
qed

text \<open>
  Witness for C9 as amended: \<open>b.xml\<close> is not well formed and \<open>d.xml\<close> has a root without
  children; \<open>process_file\<close> returns the same empty frame for both.
\<close>

theorem failed_file_gives_empty_frame_witness:
  "fst (attempt (directory []) ''./unzipped_folder/b.xml'' start) =
     Inl (OtherException ''mismatched tag: line 3, column 2'') \<and>
   fst (attempt (directory []) ''./unzipped_folder/d.xml'' start) = Inr empty_frame \<and>
   fst (process_file (directory []) ''./unzipped_folder/b.xml'' start) = Inr empty_frame \<and>
   fst (process_file (directory []) ''./unzipped_folder/d.xml'' start) =
     fst (process_file (directory []) ''./unzipped_folder/b.xml'' start)"
proof -
  have a: "fst (attempt (directory []) ''./unzipped_folder/b.xml'' start) =
     Inl (OtherException ''mismatched tag: line 3, column 2'')"
    by (simp add: fst_attempt last_part_ex get_extractor_cases directory_def example_parse_def)
  have b: "fst (attempt (directory []) ''./unzipped_folder/d.xml'' start) = Inr empty_frame"
    by (simp add: fst_attempt last_part_ex get_extractor_cases directory_def example_parse_def)
  from failed_file_gives_empty_frame [OF a b] a b show ?thesis
    by simp
qed



subsection \<open>Whole runs\<close>

lemmas run_simps =
  run_def directory_def log_function_def gather_def pd_concat_def start_def log_def
  process_file_def attempt_def get_extractor_cases last_part_ex empty_frame_def
  union_columns_def reindex_def transform_data_def transform_frame_def select_def
  extract_file_def example_parse_def load_data_def

text \<open>
  The scenario of a directory with a good CSV file, an XML file that is not well formed
  and a file of an unsupported type: the run completes and writes a file.
\<close>

lemma run_scenario:
  "fst (run (directory [''./unzipped_folder/a.csv'', ''./unzipped_folder/b.xml'',
      ''./unzipped_folder/c.txt'']) start) = Inr () \<and>
   output_file (snd (run (directory [''./unzipped_folder/a.csv'', ''./unzipped_folder/b.xml'',
      ''./unzipped_folder/c.txt'']) start)) \<noteq> None"
  by (simp add: run_simps upt_rec [of 0] bob_def)

text \<open>
  C1 fails on the code. In a directory whose only file is a JSON file that cannot be
  parsed, the error of the file is caught in its task, logged with the message of the
  \<open>ValueError\<close> clause and turned into the empty frame, as the claim says; but it does
  end the run: the concatenation of the results has no column, \<open>transform_data\<close> raises
  \<open>KeyError\<close> on it, and \<open>run\<close> ends with this exception and writes no output file.
\<close>

theorem run_single_failed_file_raises:
  "fst (attempt (directory [''./unzipped_folder/e.json'']) ''./unzipped_folder/e.json'' start) =
     Inl (ValueError ''Expected object or value'') \<and>
   process_file (directory [''./unzipped_folder/e.json'']) ''./unzipped_folder/e.json'' start =
     (Inr empty_frame,
      \<lparr>log_file =
         [''process_file started. Context: Processing file'',
          ''extract started. Context: Extracting JSON data'',
          ''ValueError processing file ./unzipped_folder/e.json: Expected object or value'',
          ''process_file completed. Context: Processing file''],
       output_file = None\<rparr>) \<and>
   fst (run (directory [''./unzipped_folder/e.json'']) start) =
     Inl (not_found [''height'', ''weight''] [''height'', ''weight'']) \<and>
   output_file (snd (run (directory [''./unzipped_folder/e.json'']) start)) = None"
  by (simp add: run_simps fst_attempt context_info_def)

text \<open>
  C2 fails on the code. In a directory whose only file has an unsupported type every task
  fails; the concatenation of the results is the empty frame, as the claim says, but
  \<open>transform_data\<close> raises \<open>KeyError\<close> on it, since it has no column \<open>height\<close> or
  \<open>weight\<close>: \<open>run\<close> ends with this exception and writes no output file.
\<close>

theorem run_all_failed_raises:
  "fst (gather (completion (directory [''./unzipped_folder/c.txt'']))
      (map (process_file (directory [''./unzipped_folder/c.txt''])) [''./unzipped_folder/c.txt''])
      start) = Inr [empty_frame] \<and>
   pd_concat [empty_frame] = Inr empty_frame \<and>
   fst (run (directory [''./unzipped_folder/c.txt'']) start) =
     Inl (not_found [''height'', ''weight''] [''height'', ''weight'']) \<and>
   output_file (snd (run (directory [''./unzipped_folder/c.txt'']) start)) = None"
  by (simp add: run_simps)

text \<open>
  C3 fails on the code. In an empty directory there is no task, \<open>gather\<close> returns the empty
  list, and \<open>pd.concat\<close> raises \<open>ValueError\<close> on it: \<open>run\<close> ends with this exception and
  writes no output file.
\<close>

theorem run_empty_directory_raises:
  "fst (run (directory []) start) = Inl (ValueError ''No objects to concatenate'') \<and>
   output_file (snd (run (directory []) start)) = None"
  by (simp add: run_simps)

end
